theory Spec2Isabelle
  imports
    Main
    "HOL-Library.Char_ord"
    "HOL-Library.List_Lexorder"
    "HOL-Library.Product_Lexorder"
    "HOL-Library.AList"
begin

section \<open>Python values shared by the three modules\<close>

text \<open>
  The exceptions the modelled code raises, catches or lets through.
  \<open>KeyboardInterrupt\<close> derives from \<open>BaseException\<close> only, so an
  \<open>except Exception\<close> clause does not catch it; every other constructor stands for a
  subclass of \<open>Exception\<close>. \<open>Unmodelled\<close> is not a Python exception: it marks an
  input on which a library function is outside the fragment modelled here, so that no
  result is invented for it.
\<close>

datatype py_exc =
    KeyboardInterrupt
  | TypeError
  | KeyError
  | IndexError
  | ValueError
  | OSError
  | TimeoutExpired
  | FileNotFoundError
  | NotImplementedError
  | Unmodelled

definition is_Exception :: "py_exc \<Rightarrow> bool" where
  "is_Exception e = (e \<noteq> KeyboardInterrupt)"

text \<open>
  What the program writes to standard output, one constructor per \<open>print\<close> call of
  \<^verbatim>\<open>blender.py\<close>; the timestamp of a status report and the text of a caught
  exception are left out.
\<close>

datatype line =
    PossibleBoxReset int string     \<comment> \<open>\<^verbatim>\<open>TEAM t - HOST h - POSSIBLE BOX RESET\<close>\<close>
  | Recovered int string            \<comment> \<open>\<^verbatim>\<open>TEAM t - HOST h - RECOVERED\<close>\<close>
  | ErrorCheckingHost string        \<comment> \<open>\<^verbatim>\<open>Error checking host <template>: ...\<close>\<close>
  | StatusReportDown nat            \<comment> \<open>\<^verbatim>\<open>=== STATUS REPORT [..]: n hosts currently down ===\<close>\<close>
  | StatusReportAllUp               \<comment> \<open>\<^verbatim>\<open>=== STATUS REPORT [..]: All hosts are UP ===\<close>\<close>
  | TeamHost int string             \<comment> \<open>\<^verbatim>\<open>  TEAM t - h\<close>\<close>
  | Rule                            \<comment> \<open>the line of fifty \<^verbatim>\<open>=\<close> closing a report\<close>
  | HostsDownStatus                 \<comment> \<open>\<^verbatim>\<open>---------- HOSTS DOWN STATUS ----------\<close>\<close>
  | FinishedUnexpectedly nat        \<comment> \<open>\<^verbatim>\<open>Warning: n threads finished unexpectedly\<close>\<close>
  | ThreadError                     \<comment> \<open>\<^verbatim>\<open>Thread error: ...\<close>\<close>
  | StoppedByUser                   \<comment> \<open>\<^verbatim>\<open>Reset check stopped by user (Ctrl+C)\<close>\<close>
  | StoppingDueTo string            \<comment> \<open>\<^verbatim>\<open>Stopping all monitoring threads due to: reason\<close>\<close>
  | FinalStatus nat                 \<comment> \<open>\<^verbatim>\<open>FINAL STATUS: n hosts were down at shutdown:\<close>\<close>
  | WaitingForThreads               \<comment> \<open>\<^verbatim>\<open>Waiting for threads to complete...\<close>\<close>
  | ShutdownError nat               \<comment> \<open>\<^verbatim>\<open>Thread i shutdown error: ...\<close>\<close>
  | AllThreadsStopped               \<comment> \<open>\<^verbatim>\<open>All threads stopped. Exiting gracefully...\<close>\<close>

text \<open>
  Strings are lists of characters with code points below 256. \<open>str.strip()\<close> removes
  the white space of that range from both ends.
\<close>

definition is_space :: "char \<Rightarrow> bool" where
  "is_space c = ((of_char c :: nat) \<in> {9, 10, 11, 12, 13, 28, 29, 30, 31, 32, 133, 160})"

definition strip :: "string \<Rightarrow> string" where
  "strip s = rev (dropWhile is_space (rev (dropWhile is_space s)))"

text \<open>\<open>str(n)\<close> for an integer: decimal digits, with a minus sign when negative.\<close>

definition digit_char :: "nat \<Rightarrow> char" where
  "digit_char d = char_of (48 + d)"

fun str_nat :: "nat \<Rightarrow> string" where
  "str_nat n = (if n < 10 then [digit_char n] else str_nat (n div 10) @ [digit_char (n mod 10)])"

definition str_int :: "int \<Rightarrow> string" where
  "str_int i = (if i < 0 then CHR ''-'' # str_nat (nat (- i)) else str_nat (nat i))"

definition is_digit :: "char \<Rightarrow> bool" where
  "is_digit c = (48 \<le> (of_char c :: nat) \<and> (of_char c :: nat) \<le> 57)"

text \<open>
  \<^verbatim>\<open>template.format(**{name: value})\<close> with one keyword argument, for templates made
  of literal text, the escapes \<^verbatim>\<open>{{\<close> and \<^verbatim>\<open>}}\<close>, and replacement fields holding a
  bare name. The third argument is the field being read (\<open>None\<close> in literal text).
  A lone \<^verbatim>\<open>}\<close> or an unclosed field is a \<open>ValueError\<close>; an empty or numeric field
  asks for a positional argument, of which there is none (\<open>IndexError\<close>); another name
  is a \<open>KeyError\<close>. Conversions, format specifications, attribute and index access are
  not modelled: a field that uses them gives \<open>Inl Unmodelled\<close>, and nothing below is
  claimed for such a template.
\<close>

fun py_format :: "string \<Rightarrow> string \<Rightarrow> string option \<Rightarrow> string \<Rightarrow> py_exc + string" where
  "py_format name v None [] = Inr []"
| "py_format name v (Some field) [] = Inl ValueError"
| "py_format name v None (c # cs) =
     (if c = CHR ''{'' then
        (case cs of
           d # ds \<Rightarrow>
             if d = CHR ''{'' then map_sum id ((#) CHR ''{'') (py_format name v None ds)
             else py_format name v (Some []) cs
         | [] \<Rightarrow> Inl ValueError)
      else if c = CHR ''}'' then
        (case cs of
           d # ds \<Rightarrow>
             if d = CHR ''}'' then map_sum id ((#) CHR ''}'') (py_format name v None ds)
             else Inl ValueError
         | [] \<Rightarrow> Inl ValueError)
      else map_sum id ((#) c) (py_format name v None cs))"
| "py_format name v (Some field) (c # cs) =
     (if c = CHR ''}'' then
        (if field = [] \<or> list_all is_digit field then Inl IndexError
         else if field = name then map_sum id ((@) v) (py_format name v None cs)
         else Inl KeyError)
      else if c \<in> set ''{!:.[]'' then Inl Unmodelled
      else py_format name v (Some (field @ [c])) cs)"

text \<open>\<^verbatim>\<open>host.format(**{self.placeholder: team})\<close>, as the worker and the constructor call it.\<close>

definition format_host :: "string \<Rightarrow> string \<Rightarrow> int \<Rightarrow> py_exc + string" where
  "format_host host placeholder team = py_format placeholder (str_int team) None host"

section \<open>The reachability probe (portchecker.py)\<close>

text \<open>
  What one pass through the \<^verbatim>\<open>try\<close> block of \<^verbatim>\<open>check_ports\<close> does for one port:
  \<^verbatim>\<open>connect_ex\<close> returns 0 (\<open>Connected\<close>), returns an error number, which includes a
  timeout (\<open>Failed\<close>), or something in the block raises (\<open>Raised\<close>: creating the
  socket, resolving the host, an interrupt).
\<close>

datatype attempt = Connected | Failed | Raised py_exc

text \<open>
  \<^verbatim>\<open>check_ports(host, ports, timeout=3)\<close> over a network given as a function from the
  stripped host and the port to the outcome of the attempt. The second component lists
  the connections attempted, in order. \<^verbatim>\<open>except KeyboardInterrupt\<close> re-raises; the bare
  \<^verbatim>\<open>except\<close> swallows every other exception and the loop goes on to the next port.
\<close>

fun check_ports :: "(string \<Rightarrow> int \<Rightarrow> attempt) \<Rightarrow> string \<Rightarrow> int list \<Rightarrow> (py_exc + bool) \<times> (string \<times> int) list" where
  "check_ports net host [] = (Inr False, [])"
| "check_ports net host (port # ports) =
     (case net (strip host) port of
        Connected \<Rightarrow> (Inr True, [(strip host, port)])
      | Failed \<Rightarrow>
          (let (r, tried) = check_ports net host ports in (r, (strip host, port) # tried))
      | Raised e \<Rightarrow>
          if e = KeyboardInterrupt then (Inl e, [(strip host, port)])
          else (let (r, tried) = check_ports net host ports in (r, (strip host, port) # tried)))"

section \<open>The down-host set and its update (blender.py, lines 143-156)\<close>

text \<open>
  \<^verbatim>\<open>self.down_hosts\<close> is a Python set of \<^verbatim>\<open>(team, formatted_host)\<close> tuples.
\<close>

type_synonym registry = "(int \<times> string) set"

text \<open>
  The body of \<^verbatim>\<open>with self.down_hosts_lock:\<close> in \<^verbatim>\<open>check_host_continuous\<close>:
  \<open>open_port\<close> is what \<^verbatim>\<open>check_ports\<close> returned. The result is the new set and the
  lines printed.
\<close>

definition report :: "int \<Rightarrow> string \<Rightarrow> bool \<Rightarrow> registry \<Rightarrow> registry \<times> line list" where
  "report team formatted_host open_port down_hosts =
     (if \<not> open_port then
        (if (team, formatted_host) \<notin> down_hosts
         then (insert (team, formatted_host) down_hosts, [PossibleBoxReset team formatted_host])
         else (down_hosts, []))
      else
        (if (team, formatted_host) \<in> down_hosts
         then (down_hosts - {(team, formatted_host)}, [Recovered team formatted_host])
         else (down_hosts, [])))"

text \<open>A sequence of updates, oldest first; the printed lines accumulate in order.\<close>

fun report_all :: "(int \<times> string \<times> bool) list \<Rightarrow> registry \<times> line list \<Rightarrow> registry \<times> line list" where
  "report_all [] st = st"
| "report_all ((team, host, open_port) # calls) (down_hosts, out) =
     (let (down_hosts', printed) = report team host open_port down_hosts
      in report_all calls (down_hosts', out @ printed))"

section \<open>The discovery wrapper (scan.py)\<close>

text \<open>
  What the wrapper sees of its surroundings: \<^verbatim>\<open>platform.system()\<close>, whether a path
  exists, and what \<^verbatim>\<open>subprocess.run(cmd, capture_output=True, text=True, timeout=300)\<close>
  does for a command line: it completes with a return code, standard output and standard
  error, or it raises (\<open>TimeoutExpired\<close> after 300 seconds, \<open>OSError\<close> when the
  program cannot be started, ...).
\<close>

datatype proc = Completed int string string | RunRaised py_exc

record scan_env =
  platform_system :: string
  path_exists :: "string \<Rightarrow> bool"
  run :: "string list \<Rightarrow> proc"

text \<open>
  \<^verbatim>\<open>get_rustscan_binary()\<close>: the result is \<^verbatim>\<open>str(rustscan_path)\<close>, which is how both
  callers use it; \<^verbatim>\<open>pathlib\<close> drops the leading \<^verbatim>\<open>./\<close> and writes the separator of
  the platform.
\<close>

definition suffixes :: "string \<Rightarrow> string option" where
  "suffixes sys_name =
     (if sys_name = ''Windows'' then Some ''windows.exe''
      else if sys_name = ''Linux'' then Some ''linux''
      else if sys_name = ''Darwin'' then Some ''macos''
      else None)"

definition get_rustscan_binary :: "scan_env \<Rightarrow> py_exc + string" where
  "get_rustscan_binary env =
     (case suffixes (platform_system env) of
        None \<Rightarrow> Inl NotImplementedError
      | Some suffix \<Rightarrow>
          (let rustscan_path =
                 (if platform_system env = ''Windows'' then ''scanning'' @ [CHR 0x5C] else ''scanning/'')
                 @ ''rustscan-'' @ suffix
           in if path_exists env rustscan_path then Inr rustscan_path
              else Inl FileNotFoundError))"


text \<open>
  \<^verbatim>\<open>str.splitlines()\<close>: a line ends at a line feed, a carriage return (with the line
  feed that follows it, if any), a vertical tab, a form feed, a file, group or record
  separator, or a next-line character; no empty last line is produced. The first argument
  is the line being read.
\<close>

definition is_linebreak :: "char \<Rightarrow> bool" where
  "is_linebreak c = ((of_char c :: nat) \<in> {10, 11, 12, 13, 28, 29, 30, 133})"

fun splitlines_from :: "string \<Rightarrow> string \<Rightarrow> string list" where
  "splitlines_from cur [] = (if cur = [] then [] else [cur])"
| "splitlines_from cur (c # cs) =
     (if c = CHR 0x0D then
        (case cs of
           d # ds \<Rightarrow> if d = CHR 0x0A then cur # splitlines_from [] ds
                      else cur # splitlines_from [] cs
         | [] \<Rightarrow> [cur])
      else if is_linebreak c then cur # splitlines_from [] cs
      else splitlines_from (cur @ [c]) cs)"

definition splitlines :: "string \<Rightarrow> string list" where
  "splitlines s = splitlines_from [] s"

text \<open>\<^verbatim>\<open>line.split('->')\<close> and \<^verbatim>\<open>s.split(',')\<close>: never empty, one more part than separators.\<close>

fun split_arrow :: "string \<Rightarrow> string list" where
  "split_arrow [] = [[]]"
| "split_arrow (c # cs) =
     (case cs of
        d # ds \<Rightarrow>
          if c = CHR ''-'' \<and> d = CHR ''>'' then [] # split_arrow ds
          else (case split_arrow cs of p # ps \<Rightarrow> (c # p) # ps | [] \<Rightarrow> [[c]])
      | [] \<Rightarrow> [[c]])"

fun split_comma :: "string \<Rightarrow> string list" where
  "split_comma [] = [[]]"
| "split_comma (c # cs) =
     (if c = CHR '','' then [] # split_comma cs
      else (case split_comma cs of p # ps \<Rightarrow> (c # p) # ps | [] \<Rightarrow> [[c]]))"

text \<open>
  \<^verbatim>\<open>int(s)\<close> on a string: white space around it, an optional sign, decimal digits with
  single underscores between them; \<open>None\<close> is \<open>ValueError\<close>.
\<close>

definition int_literal :: "string \<Rightarrow> bool" where
  "int_literal body \<longleftrightarrow>
     body \<noteq> [] \<and> is_digit (hd body) \<and> is_digit (last body)
     \<and> list_all (\<lambda>c. is_digit c \<or> c = CHR ''_'') body
     \<and> list_all (\<lambda>(c, d). \<not> (c = CHR ''_'' \<and> d = CHR ''_'')) (zip body (tl body))"

definition digits_value :: "string \<Rightarrow> nat" where
  "digits_value ds = foldl (\<lambda>acc c. 10 * acc + (of_char c - 48)) 0 ds"

definition py_int :: "string \<Rightarrow> int option" where
  "py_int s =
     (let t = strip s;
          neg = (t \<noteq> [] \<and> hd t = CHR ''-'');
          body = (if t \<noteq> [] \<and> (hd t = CHR ''-'' \<or> hd t = CHR ''+'') then tl t else t)
      in if int_literal body
         then Some ((if neg then - 1 else 1) * int (digits_value (filter (\<lambda>c. c \<noteq> CHR ''_'') body)))
         else None)"





text \<open>
  One line of the output of a host scan, in \<^verbatim>\<open>scan_hosts\<close>: a line
  \<^verbatim>\<open>host -> [p1,p2,...]\<close> with exactly one arrow stores the sorted ports under the host;
  \<^verbatim>\<open>results\<close> is the dictionary, kept as an association list in insertion order. A port
  that \<^verbatim>\<open>int\<close> rejects (\<^verbatim>\<open>ValueError\<close>) drops the line.
\<close>

definition hosts_line :: "string \<Rightarrow> (string \<times> int list) list \<Rightarrow> (string \<times> int list) list" where
  "hosts_line line results =
     (case split_arrow (strip line) of
        [p0, p1] \<Rightarrow>
          (let host = strip p0; port_section = strip p1 in
           if port_section \<noteq> [] \<and> hd port_section = CHR ''['' \<and> last port_section = CHR '']''
           then
             (let port_str = butlast (tl port_section) in
              if port_str \<noteq> [] then
                (let ports_found = map (\<lambda>p. py_int (strip p)) (split_comma port_str) in
                 if list_all (\<lambda>p. p \<noteq> None) ports_found
                 then AList.update host (sort (map the ports_found)) results
                 else results)
              else results)
           else results)
      | _ \<Rightarrow> results)"

text \<open>
  The loop of \<^verbatim>\<open>scan_hosts\<close> over the hosts. A scan that times out, cannot be run or
  exits with a non-zero code adds nothing, and the loop goes on to the next host.
\<close>

definition hosts_cmd :: "string \<Rightarrow> string \<Rightarrow> int list \<Rightarrow> string list" where
  "hosts_cmd rustscan_path h scan_ports =
     [rustscan_path, ''-a'', h, ''-g'',
      if scan_ports \<noteq> [] then concat (map str_int scan_ports) else ''--top'']"

fun scan_hosts_loop :: "scan_env \<Rightarrow> string \<Rightarrow> int list \<Rightarrow> string list \<Rightarrow> (string \<times> int list) list
    \<Rightarrow> py_exc + (string \<times> int list) list" where
  "scan_hosts_loop env rustscan_path scan_ports [] results = Inr results"
| "scan_hosts_loop env rustscan_path scan_ports (h # hs) results =
     (case run env (hosts_cmd rustscan_path h scan_ports) of
        Completed returncode stdout stderr \<Rightarrow>
          scan_hosts_loop env rustscan_path scan_ports hs
            (if returncode = 0 then fold hosts_line (splitlines stdout) results else results)
      | RunRaised e \<Rightarrow>
          if is_Exception e then scan_hosts_loop env rustscan_path scan_ports hs results
          else Inl e)"

definition scan_hosts :: "scan_env \<Rightarrow> string list \<Rightarrow> int list \<Rightarrow> py_exc + (string \<times> int list) list" where
  "scan_hosts env hs scan_ports =
     (case get_rustscan_binary env of
        Inl e \<Rightarrow> Inl e
      | Inr rustscan_path \<Rightarrow> scan_hosts_loop env rustscan_path scan_ports hs [])"

section \<open>Recovering a template from a host (blender.py, unformat)\<close>




section \<open>The monitoring worker (blender.py, check_host_continuous)\<close>

text \<open>
  The part of the \<^verbatim>\<open>Blender\<close> object that the threads share, and what they do that
  can be observed: a call of \<^verbatim>\<open>check_ports\<close>, a printed line, a call of
  \<^verbatim>\<open>self.stop_event.wait\<close> or \<^verbatim>\<open>time.sleep\<close> (in milliseconds), a call of
  \<^verbatim>\<open>future.result\<close> on the future with the given index, and the shutdown of the
  executor.
\<close>

datatype action =
    Probe string "int list"
  | Print line
  | StopWait nat
  | Sleep nat
  | FutureResult nat
  | ExecutorShutdown

record blender =
  down_hosts :: registry
  stop_event :: bool
  trace :: "action list"

text \<open>
  What one worker is given: the pair \<^verbatim>\<open>(host, ports)\<close> of the inventory, and
  \<^verbatim>\<open>self.teams\<close> and \<^verbatim>\<open>self.placeholder\<close>.
\<close>

record wconfig =
  host_template :: string
  port_list :: "int list"
  teams :: "int list"
  placeholder :: string

text \<open>
  Where the worker stands: at the test of the \<^verbatim>\<open>while\<close> loop; in the \<^verbatim>\<open>for\<close> loop
  with the teams still to visit (\<open>ForLoop []\<close> is the statement after the loop, the
  call \<^verbatim>\<open>self.stop_event.wait(0.1)\<close>); in the \<^verbatim>\<open>except\<close> clause, at
  \<^verbatim>\<open>self.stop_event.wait(1)\<close>; returned; or ended by an exception that
  \<^verbatim>\<open>except Exception\<close> does not catch.
\<close>

datatype wpc = WhileTest | ForLoop "int list" | Handler | Exited | Died py_exc

record worker = blender +
  pc :: wpc

text \<open>
  What the surroundings contribute to one step: whether \<^verbatim>\<open>self.stop_event.set()\<close> has
  been called since the previous step, and how \<^verbatim>\<open>check_ports\<close> answers. The event is
  cleared in \<^verbatim>\<open>reset_check\<close> only, before any worker is submitted, so while a worker
  runs the event can only become set.
\<close>

record winput =
  set_called :: bool
  probe :: "string \<Rightarrow> int list \<Rightarrow> py_exc + bool"

text \<open>An exception raised inside the \<^verbatim>\<open>try\<close> block (lines 164-165).\<close>

definition raise_in_try :: "wconfig \<Rightarrow> py_exc \<Rightarrow> worker \<Rightarrow> worker" where
  "raise_in_try c e s =
     (if is_Exception e
      then s\<lparr>pc := Handler, trace := trace s @ [Print (ErrorCheckingHost (host_template c))]\<rparr>
      else s\<lparr>pc := Died e\<rparr>)"

text \<open>
  \<^verbatim>\<open>if not self.stop_event.wait(t): continue else: break\<close> (lines 159-162 and 167-170).
\<close>

definition stop_wait :: "nat \<Rightarrow> worker \<Rightarrow> worker" where
  "stop_wait ms s =
     s\<lparr>pc := (if stop_event s then Exited else WhileTest), trace := trace s @ [StopWait ms]\<rparr>"

text \<open>
  One step of the worker, from one reading of the stop event to the next. In the
  \<^verbatim>\<open>for\<close> loop a step is one iteration: the test of the stop event, the formatting of
  the host, the probe, and the update of the down-host set under the lock.
\<close>

definition worker_step :: "wconfig \<Rightarrow> winput \<Rightarrow> worker \<Rightarrow> worker" where
  "worker_step c i s0 =
     (let s = s0\<lparr>stop_event := stop_event s0 \<or> set_called i\<rparr> in
      case pc s0 of
        Exited \<Rightarrow> s0
      | Died e \<Rightarrow> s0
      | WhileTest \<Rightarrow> if stop_event s then s\<lparr>pc := Exited\<rparr> else s\<lparr>pc := ForLoop (teams c)\<rparr>
      | ForLoop [] \<Rightarrow> stop_wait 100 s
      | ForLoop (team # rest) \<Rightarrow>
          if stop_event s then s\<lparr>pc := ForLoop []\<rparr>
          else
            (case format_host (host_template c) (placeholder c) team of
               Inl e \<Rightarrow> raise_in_try c e s
             | Inr formatted_host \<Rightarrow>
                 (let s' = s\<lparr>trace := trace s @ [Probe formatted_host (port_list c)]\<rparr> in
                  case probe i formatted_host (port_list c) of
                    Inl e \<Rightarrow> raise_in_try c e s'
                  | Inr open_port \<Rightarrow>
                      (let (down_hosts', printed) =
                             report team formatted_host open_port (down_hosts s')
                       in s'\<lparr>pc := ForLoop rest, down_hosts := down_hosts',
                             trace := trace s' @ map Print printed\<rparr>)))
      | Handler \<Rightarrow> stop_wait 1000 s)"

definition worker_run :: "wconfig \<Rightarrow> winput list \<Rightarrow> worker \<Rightarrow> worker" where
  "worker_run c inputs s = fold (worker_step c) inputs s"

definition worker_start :: "registry \<Rightarrow> worker" where
  "worker_start reg = \<lparr>down_hosts = reg, stop_event = False, trace = [], pc = WhileTest\<rparr>"

section \<open>Status blocks (blender.py, lines 182-189, 255-259 and 278-282)\<close>

text \<open>
  \<^verbatim>\<open>for team, host in sorted(self.down_hosts): print(f"  TEAM {team} - {host}")\<close>. Python
  compares the tuples by team number and then by host, character by character, which
  is the order of \<open>int \<times> string\<close> here.
\<close>

definition down_list :: "registry \<Rightarrow> line list" where
  "down_list reg = map (\<lambda>(team, h). TeamHost team h) (sorted_list_of_set reg)"

text \<open>The block the reporter prints under the lock when a report is due.\<close>

definition status_report :: "registry \<Rightarrow> line list" where
  "status_report reg =
     (if reg \<noteq> {} then [StatusReportDown (card reg)] @ down_list reg @ [Rule]
      else [StatusReportAllUp])"

text \<open>The block the supervisor prints under the lock in each round of its polling loop.\<close>

definition hosts_down_status :: "registry \<Rightarrow> line list" where
  "hosts_down_status reg = (if reg \<noteq> {} then [HostsDownStatus] @ down_list reg else [])"

text \<open>The block \<^verbatim>\<open>_shutdown_threads\<close> prints under the lock.\<close>

definition final_status :: "registry \<Rightarrow> line list" where
  "final_status reg = (if reg \<noteq> {} then [FinalStatus (card reg)] @ down_list reg else [])"

text \<open>The (team, host) pairs a block of lines lists.\<close>

fun listed :: "line list \<Rightarrow> (int \<times> string) list" where
  "listed [] = []"
| "listed (TeamHost team h # ls) = (team, h) # listed ls"
| "listed (l # ls) = listed ls"

section \<open>The supervisor (blender.py, reset_check and _shutdown_threads)\<close>













section \<open>The thread pool (blender.py, lines 30 and 227-236)\<close>







section \<open>A configuration to run the worker on\<close>

text \<open>
  One template, port 22 and teams 1 to 3, with surroundings in which no stop is
  requested and every probe succeeds, finds no open port, or raises \<^verbatim>\<open>TypeError\<close>; and
  surroundings in which \<^verbatim>\<open>self.stop_event.set()\<close> has just been called.
\<close>

definition scenario_config :: wconfig where
  "scenario_config =
     \<lparr>host_template = ''10.{team}.1.5'', port_list = [22], teams = [1, 2, 3],
      placeholder = ''team''\<rparr>"

definition all_up :: winput where
  "all_up = \<lparr>set_called = False, probe = (\<lambda>h ps. Inr True)\<rparr>"

definition all_down :: winput where
  "all_down = \<lparr>set_called = False, probe = (\<lambda>h ps. Inr False)\<rparr>"

definition probe_raises :: winput where
  "probe_raises = \<lparr>set_called = False, probe = (\<lambda>h ps. Inl TypeError)\<rparr>"

definition stop_requested :: winput where
  "stop_requested = \<lparr>set_called = True, probe = (\<lambda>h ps. Inr True)\<rparr>"


section \<open>The lock around the down-host set (blender.py, self.down_hosts_lock)\<close>

text \<open>
  Every access to \<^verbatim>\<open>self.down_hosts\<close> while threads run stands in a
  \<^verbatim>\<open>with self.down_hosts_lock:\<close> block. There are four such blocks: the update of a
  worker (lines 143-156, with the team, the host and the answer of the probe), and the
  status blocks of the reporter (lines 182-189), of the polling loop (lines 255-259) and
  of the shutdown (lines 278-282).
\<close>

datatype block = UpdateSet int string bool | ReporterBlock | SupervisorBlock | ShutdownBlock

text \<open>
  The statement a thread inside a block has reached: the test of the \<^verbatim>\<open>if\<close>, the
  \<^verbatim>\<open>add\<close> or \<^verbatim>\<open>remove\<close>, the \<^verbatim>\<open>print\<close> of an alert or of the all-up line, the
  \<^verbatim>\<open>print\<close> of a heading, the call of \<^verbatim>\<open>sorted\<close>, the \<^verbatim>\<open>for\<close> loop over the pairs
  still to print, and the end of the block, where the lock is released.
\<close>

datatype stage =
    Test
  | Mutate
  | Announce
  | Header
  | Sorting
  | Listing "(int \<times> string) list"
  | Unlock

text \<open>
  One statement of a block, on the set and the lines printed so far. The set is read
  again by every statement that mentions it, as in the source.
\<close>

fun micro :: "block \<Rightarrow> stage \<Rightarrow> registry \<times> line list \<Rightarrow> stage \<times> registry \<times> line list" where
  "micro (UpdateSet team h open_port) Test (reg, out) =
     (if \<not> open_port then (if (team, h) \<notin> reg then Mutate else Unlock)
      else (if (team, h) \<in> reg then Mutate else Unlock),
      reg, out)"
| "micro (UpdateSet team h open_port) Mutate (reg, out) =
     (Announce, if \<not> open_port then insert (team, h) reg else reg - {(team, h)}, out)"
| "micro (UpdateSet team h open_port) Announce (reg, out) =
     (Unlock, reg, out @ [if \<not> open_port then PossibleBoxReset team h else Recovered team h])"
| "micro (UpdateSet team h open_port) st (reg, out) = (Unlock, reg, out)"
| "micro ReporterBlock Test (reg, out) = (if reg \<noteq> {} then Header else Announce, reg, out)"
| "micro ReporterBlock Announce (reg, out) = (Unlock, reg, out @ [StatusReportAllUp])"
| "micro ReporterBlock Header (reg, out) = (Sorting, reg, out @ [StatusReportDown (card reg)])"
| "micro ReporterBlock (Listing []) (reg, out) = (Unlock, reg, out @ [Rule])"
| "micro SupervisorBlock Test (reg, out) = (if reg \<noteq> {} then Header else Unlock, reg, out)"
| "micro SupervisorBlock Header (reg, out) = (Sorting, reg, out @ [HostsDownStatus])"
| "micro ShutdownBlock Test (reg, out) = (if reg \<noteq> {} then Header else Unlock, reg, out)"
| "micro ShutdownBlock Header (reg, out) = (Sorting, reg, out @ [FinalStatus (card reg)])"
| "micro b Sorting (reg, out) = (Listing (sorted_list_of_set reg), reg, out)"
| "micro b (Listing ((team, h) # xs)) (reg, out) = (Listing xs, reg, out @ [TeamHost team h])"
| "micro b st (reg, out) = (Unlock, reg, out)"


text \<open>A whole block run without interruption: the functions defined above.\<close>

fun atomic :: "block \<Rightarrow> registry \<times> line list \<Rightarrow> registry \<times> line list" where
  "atomic (UpdateSet team h open_port) (reg, out) =
     (let (reg', printed) = report team h open_port reg in (reg', out @ printed))"
| "atomic ReporterBlock (reg, out) = (reg, out @ status_report reg)"
| "atomic SupervisorBlock (reg, out) = (reg, out @ hosts_down_status reg)"
| "atomic ShutdownBlock (reg, out) = (reg, out @ final_status reg)"

text \<open>
  A thread is outside the lock with the blocks it will still run, or inside a block at
  some statement. The system holds the shared set, the output, the holder of the lock,
  the threads, and the blocks in the order in which they were entered.
\<close>

datatype thread = Outside "block list" | Inside block stage "block list"

record lock_system =
  the_set :: registry
  printed :: "line list"
  held_by :: "nat option"
  threads :: "thread list"
  entered :: "block list"

text \<open>
  The thread the scheduler picks takes one step. Outside, it enters its next block if
  the lock is free, and is blocked otherwise; at the end of a block it releases the
  lock; anywhere else it runs one statement.
\<close>

definition sched_step :: "nat \<Rightarrow> lock_system \<Rightarrow> lock_system" where
  "sched_step i s =
     (if i < length (threads s) then
        (case threads s ! i of
           Outside [] \<Rightarrow> s
         | Outside (b # rest) \<Rightarrow>
             if held_by s = None
             then s\<lparr>held_by := Some i, threads := (threads s)[i := Inside b Test rest],
                    entered := entered s @ [b]\<rparr>
             else s
         | Inside b st rest \<Rightarrow>
             if st = Unlock
             then s\<lparr>held_by := None, threads := (threads s)[i := Outside rest]\<rparr>
             else
               (let (st', reg', out') = micro b st (the_set s, printed s)
                in s\<lparr>the_set := reg', printed := out',
                      threads := (threads s)[i := Inside b st' rest]\<rparr>))
      else s)"

definition interleave :: "nat list \<Rightarrow> lock_system \<Rightarrow> lock_system" where
  "interleave schedule s = fold sched_step schedule s"

definition lock_start :: "block list list \<Rightarrow> registry \<Rightarrow> line list \<Rightarrow> lock_system" where
  "lock_start programs reg out =
     \<lparr>the_set = reg, printed = out, held_by = None, threads = map Outside programs, entered = []\<rparr>"

text \<open>
  For the proofs: what the thread inside a block will still do to the set and the
  output before it releases the lock, the system as it will be once the holder of the
  lock has left its block, and the discipline of the lock: a thread is inside a block
  exactly when it holds the lock.
\<close>

definition closing :: "block \<Rightarrow> line list" where
  "closing b = (if b = ReporterBlock then [Rule] else [])"

fun remaining :: "block \<Rightarrow> stage \<Rightarrow> registry \<times> line list \<Rightarrow> registry \<times> line list" where
  "remaining (UpdateSet team h open_port) Test v = atomic (UpdateSet team h open_port) v"
| "remaining (UpdateSet team h open_port) Mutate (reg, out) =
     (if \<not> open_port then insert (team, h) reg else reg - {(team, h)},
      out @ [if \<not> open_port then PossibleBoxReset team h else Recovered team h])"
| "remaining (UpdateSet team h open_port) Announce (reg, out) =
     (reg, out @ [if \<not> open_port then PossibleBoxReset team h else Recovered team h])"
| "remaining (UpdateSet team h open_port) st v = v"
| "remaining b Test v = atomic b v"
| "remaining ReporterBlock Announce (reg, out) = (reg, out @ [StatusReportAllUp])"
| "remaining ReporterBlock Header (reg, out) =
     (reg, out @ [StatusReportDown (card reg)] @ down_list reg @ [Rule])"
| "remaining SupervisorBlock Header (reg, out) = (reg, out @ [HostsDownStatus] @ down_list reg)"
| "remaining ShutdownBlock Header (reg, out) =
     (reg, out @ [FinalStatus (card reg)] @ down_list reg)"
| "remaining b Sorting (reg, out) = (reg, out @ down_list reg @ closing b)"
| "remaining b (Listing xs) (reg, out) =
     (reg, out @ map (\<lambda>(team, h). TeamHost team h) xs @ closing b)"
| "remaining b st v = v"

definition view :: "lock_system \<Rightarrow> registry \<times> line list" where
  "view s =
     (case held_by s of
        None \<Rightarrow> (the_set s, printed s)
      | Some i \<Rightarrow>
          (case threads s ! i of
             Inside b st rest \<Rightarrow> remaining b st (the_set s, printed s)
           | Outside rest \<Rightarrow> (the_set s, printed s)))"

definition lock_inv :: "lock_system \<Rightarrow> bool" where
  "lock_inv s \<longleftrightarrow>
     (\<forall>j < length (threads s).
        (\<exists>b st rest. threads s ! j = Inside b st rest) \<longleftrightarrow> held_by s = Some j)
     \<and> (\<forall>i. held_by s = Some i \<longrightarrow> i < length (threads s))"

text \<open>
  Two threads, a worker with two updates and the reporter, and a schedule in which
  each of them is picked while the other is inside its block.
\<close>

definition example_programs :: "block list list" where
  "example_programs =
     [[UpdateSet 2 ''10.2.1.5'' False, UpdateSet 1 ''10.1.1.5'' False], [ReporterBlock]]"

definition example_schedule :: "nat list" where
  "example_schedule = [0, 0, 1, 0, 1, 0, 0, 1, 0, 1, 1, 1, 1, 1, 1, 0, 0, 0, 0, 0]"

section \<open>Properties of the down-host set\<close>

lemma report_member:
  "p \<in> fst (report t h r reg) \<longleftrightarrow> (if p = (t, h) then \<not> r else p \<in> reg)"
  by (auto simp: report_def)

lemma report_all_append:
  "report_all (xs @ ys) st = report_all ys (report_all xs st)"
  by (induction xs st rule: report_all.induct) (auto split: prod.splits)

lemma report_all_snoc_member:
  "p \<in> fst (report_all (calls @ [(t, h, r)]) st) \<longleftrightarrow>
     (if p = (t, h) then \<not> r else p \<in> fst (report_all calls st))"
proof -
  obtain reg out where st': "report_all calls st = (reg, out)"
    by (cases "report_all calls st")
  show ?thesis
    by (simp add: report_all_append st' report_member split: prod.splits)
      (metis fst_conv report_member)
qed

lemma report_all_member:
  "p \<in> fst (report_all calls ({}, [])) \<longleftrightarrow>
     (let cs = filter (\<lambda>(t, h, r). (t, h) = p) calls
      in cs \<noteq> [] \<and> \<not> snd (snd (last cs)))"
proof (induction calls rule: rev_induct)
  case Nil
  show ?case by simp
next
  case (snoc c calls)
  obtain t h r where c: "c = (t, h, r)" by (cases c)
  show ?case
    unfolding c report_all_snoc_member
    using snoc.IH by (auto simp: Let_def)
qed

text \<open>
  C1. Starting from the empty set, a pair is in the set after a sequence of updates
  exactly when the sequence has an update for that pair and the last such update was made
  with \<open>open_port = False\<close>. A single update with \<open>open_port = False\<close> inserts an
  absent pair and prints one POSSIBLE BOX RESET line, and prints nothing and changes
  nothing when the pair is present; with \<open>open_port = True\<close> it removes a present pair
  and prints one RECOVERED line, and does nothing when the pair is absent.
\<close>

theorem report_tracks_most_recent:
  "((t, h) \<in> fst (report_all calls ({}, [])) \<longleftrightarrow>
       (let cs = filter (\<lambda>(t', h', r). (t', h') = (t, h)) calls
        in cs \<noteq> [] \<and> \<not> snd (snd (last cs))))
   \<and> ((t, h) \<notin> reg \<longrightarrow> report t h False reg = (insert (t, h) reg, [PossibleBoxReset t h]))
   \<and> ((t, h) \<in> reg \<longrightarrow> report t h False reg = (reg, []))
   \<and> ((t, h) \<in> reg \<longrightarrow> report t h True reg = (reg - {(t, h)}, [Recovered t h]))
   \<and> ((t, h) \<notin> reg \<longrightarrow> report t h True reg = (reg, []))"
  using report_all_member [of "(t, h)" calls] by (simp add: report_def)

theorem report_tracks_most_recent_witness:
  "(2, ''10.2.1.5'') \<in> fst (report_all
        [(2, ''10.2.1.5'', True), (2, ''10.2.1.5'', False), (1, ''10.1.1.5'', True),
         (2, ''10.2.1.5'', False)] ({}, []))
   \<and> report 2 ''10.2.1.5'' False {} = ({(2, ''10.2.1.5'')}, [PossibleBoxReset 2 ''10.2.1.5''])
   \<and> report 2 ''10.2.1.5'' False {(2, ''10.2.1.5'')} = ({(2, ''10.2.1.5'')}, [])
   \<and> report 2 ''10.2.1.5'' True {(2, ''10.2.1.5'')} = ({}, [Recovered 2 ''10.2.1.5''])
   \<and> report 2 ''10.2.1.5'' True {} = ({}, [])"
  using report_tracks_most_recent [of 2 "''10.2.1.5''"
      "[(2, ''10.2.1.5'', True), (2, ''10.2.1.5'', False), (1, ''10.1.1.5'', True),
        (2, ''10.2.1.5'', False)]" "{}"]
    report_tracks_most_recent [of 2 "''10.2.1.5''" "[]" "{(2, ''10.2.1.5'')}"]
  by (simp add: report_def)

text \<open>
  C10. An update for the pair \<open>(t, h)\<close> leaves the membership of every other pair as it
  was.
\<close>

theorem report_frame:
  "(t', h') \<noteq> (t, h) \<Longrightarrow>
     ((t', h') \<in> fst (report t h r reg) \<longleftrightarrow> (t', h') \<in> reg)"
  by (auto simp: report_member)

theorem report_frame_witness:
  "(1, ''10.1.1.5'') \<noteq> (2 :: int, ''10.2.1.5'')
   \<and> ((1, ''10.1.1.5'') \<in> fst (report 2 ''10.2.1.5'' False {(1, ''10.1.1.5'')}))
   \<and> ((3, ''10.3.1.5'') \<notin> fst (report 2 ''10.2.1.5'' False {(1, ''10.1.1.5'')}))"
  using report_frame [of 1 "''10.1.1.5''" 2 "''10.2.1.5''" False "{(1, ''10.1.1.5'')}"]
    report_frame [of 3 "''10.3.1.5''" 2 "''10.2.1.5''" False "{(1, ''10.1.1.5'')}"]
  by (simp add: report_def)

section \<open>Properties of the reachability probe\<close>

text \<open>
  C4. Unless an attempt is interrupted from the keyboard before a port has accepted,
  \<^verbatim>\<open>check_ports\<close> returns normally: \<open>True\<close> exactly when some port of the list accepts
  a connection, \<open>False\<close> otherwise, whatever fails or raises on the other ports. The
  connections attempted are the ports of the list in their order, up to and including
  the first one that accepts, and no port after it.
\<close>

theorem check_ports_in_order:
  assumes "\<forall>p \<in> set (takeWhile (\<lambda>p. net (strip host) p \<noteq> Connected) ports).
             net (strip host) p \<noteq> Raised KeyboardInterrupt"
  shows "check_ports net host ports =
     (Inr (\<exists>p \<in> set ports. net (strip host) p = Connected),
      map (Pair (strip host))
        (takeWhile (\<lambda>p. net (strip host) p \<noteq> Connected) ports
         @ take 1 (dropWhile (\<lambda>p. net (strip host) p \<noteq> Connected) ports)))"
  using assms
proof (induction ports)
  case Nil
  show ?case by simp
next
  case (Cons port ports)
  show ?case
  proof (cases "net (strip host) port")
    case Connected
    then show ?thesis by simp
  next
    case Failed
    with Cons show ?thesis by simp
  next
    case (Raised e)
    with Cons show ?thesis by auto
  qed
qed

theorem check_ports_in_order_witness:
  "check_ports
     (\<lambda>h p. if p = 22 then Failed else if p = 80 then Raised OSError
             else if p = 443 then Connected else Failed)
     '' 10.1.1.5'' [22, 80, 443, 8080]
   = (Inr True, [(''10.1.1.5'', 22), (''10.1.1.5'', 80), (''10.1.1.5'', 443)])"
  using check_ports_in_order [of
     "\<lambda>h p. if p = 22 then Failed else if p = 80 then Raised OSError
             else if p = 443 then Connected else Failed"
     "'' 10.1.1.5''" "[22, 80, 443, 8080]"]
  by (simp add: strip_def is_space_def)


section \<open>Properties of the discovery wrapper\<close>





text \<open>
  A host scan that times out for one host and succeeds for the next keeps the entry of
  the second host: the result of \<^verbatim>\<open>scan_hosts\<close> is then not empty.
\<close>

lemma hosts_line_example:
  "hosts_line ''10.1.1.6 -> [443,22]'' [] = [(''10.1.1.6'', [22, 443])]"
  by (simp add: hosts_line_def strip_def is_space_def py_int_def int_literal_def is_digit_def
      digits_value_def Let_def)

lemma scan_hosts_keeps_other_hosts:
  "scan_hosts \<lparr>platform_system = ''Linux'', path_exists = (\<lambda>p. True),
                 run = (\<lambda>cmd. if cmd ! 2 = ''10.1.1.5'' then RunRaised TimeoutExpired
                              else Completed 0 ''10.1.1.6 -> [443,22]'' [])\<rparr>
       [''10.1.1.5'', ''10.1.1.6''] []
     = Inr [(''10.1.1.6'', [22, 443])]"
  by (simp add: scan_hosts_def get_rustscan_binary_def suffixes_def hosts_cmd_def
      is_Exception_def splitlines_def is_linebreak_def hosts_line_example)



section \<open>Properties of the template recovery\<close>

lemma map_sum_id_comp:
  "map_sum id f (map_sum id g r) = map_sum id (f \<circ> g) r"
  by (cases r) simp_all














section \<open>Properties of the worker\<close>

lemma worker_step_finished:
  "pc s = Exited \<or> (\<exists>e. pc s = Died e) \<Longrightarrow> worker_step c i s = s"
  by (auto simp: worker_step_def)

lemma worker_run_finished:
  "pc s = Exited \<or> (\<exists>e. pc s = Died e) \<Longrightarrow> worker_run c inputs s = s"
  unfolding worker_run_def
  by (induction inputs) (simp_all add: worker_step_finished)

lemma worker_run_Cons:
  "worker_run c (i # inputs) s = worker_run c inputs (worker_step c i s)"
  by (simp add: worker_run_def)

text \<open>
  C8. Let the worker be anywhere in the \<^verbatim>\<open>for\<close> loop with teams left to visit, and let
  the stop event be set when the loop tests it. Then the step leaves the loop without
  probing: nothing is added to the trace and the down-host set is unchanged. The next
  step is \<^verbatim>\<open>self.stop_event.wait(0.1)\<close>, after which the worker has returned; whatever
  the surroundings offer afterwards, the worker probes, prints and updates nothing more.
\<close>

theorem stop_abandons_cycle:
  assumes "pc s = ForLoop (team # rest)" and "stop_event s \<or> set_called i"
  shows "worker_step c i s = s\<lparr>stop_event := True, pc := ForLoop []\<rparr>
       \<and> worker_run c (i # i' # inputs) s
           = s\<lparr>stop_event := True, trace := trace s @ [StopWait 100], pc := Exited\<rparr>"
proof -
  have 1: "worker_step c i s = s\<lparr>stop_event := True, pc := ForLoop []\<rparr>"
    using assms by (auto simp: worker_step_def)
  have 2: "worker_step c i' (s\<lparr>stop_event := True, pc := ForLoop []\<rparr>)
           = s\<lparr>stop_event := True, trace := trace s @ [StopWait 100], pc := Exited\<rparr>"
    by (simp add: worker_step_def stop_wait_def)
  show ?thesis
    by (simp add: worker_run_Cons 1 2 worker_run_finished)
qed

theorem stop_abandons_cycle_witness:
  "worker_step scenario_config stop_requested
      \<lparr>down_hosts = {}, stop_event = False, trace = [Probe ''10.1.1.5'' [22]], pc = ForLoop [2, 3]\<rparr>
     = \<lparr>down_hosts = {}, stop_event = True, trace = [Probe ''10.1.1.5'' [22]], pc = ForLoop []\<rparr>
   \<and> worker_run scenario_config [stop_requested, all_down, all_down, all_down]
      \<lparr>down_hosts = {}, stop_event = False, trace = [Probe ''10.1.1.5'' [22]], pc = ForLoop [2, 3]\<rparr>
     = \<lparr>down_hosts = {}, stop_event = True, trace = [Probe ''10.1.1.5'' [22], StopWait 100],
        pc = Exited\<rparr>"
  using stop_abandons_cycle [of
      "\<lparr>down_hosts = {}, stop_event = False, trace = [Probe ''10.1.1.5'' [22]], pc = ForLoop [2, 3]\<rparr>"
      2 "[3]" stop_requested scenario_config all_down "[all_down, all_down]"]
  by (simp add: stop_requested_def)

text \<open>
  C2, as the code has it. Let \<^verbatim>\<open>check_ports\<close> raise an \<^verbatim>\<open>Exception\<close> for the host of
  some team while no stop is requested. The worker does not end: it prints the error
  and moves to \<^verbatim>\<open>self.stop_event.wait(1)\<close>, leaving the down-host set as it was. If
  no stop is requested during that wait, the \<^verbatim>\<open>while\<close> loop starts the \<^verbatim>\<open>for\<close> loop
  again over all of \<^verbatim>\<open>self.teams\<close>, from the first team.
\<close>

theorem probe_exception_restarts_cycle:
  assumes "pc s = ForLoop (team # rest)" and "\<not> stop_event s"
    and "format_host (host_template c) (placeholder c) team = Inr fh"
    and "probe i1 fh (port_list c) = Inl e" and "is_Exception e"
    and "\<not> set_called i1" and "\<not> set_called i2" and "\<not> set_called i3"
  shows "worker_step c i1 s
           = s\<lparr>trace := trace s @ [Probe fh (port_list c), Print (ErrorCheckingHost (host_template c))],
                pc := Handler\<rparr>
       \<and> worker_run c [i1, i2, i3] s
           = s\<lparr>trace := trace s @ [Probe fh (port_list c), Print (ErrorCheckingHost (host_template c)),
                                     StopWait 1000],
                pc := ForLoop (teams c)\<rparr>"
  using assms
  by (simp add: worker_run_def worker_step_def raise_in_try_def stop_wait_def)


theorem probe_exception_restarts_cycle_witness:
  "worker_run scenario_config [probe_raises, all_up, all_up]
      \<lparr>down_hosts = {}, stop_event = False, trace = [Probe ''10.1.1.5'' [22]], pc = ForLoop [2, 3]\<rparr>
     = \<lparr>down_hosts = {}, stop_event = False,
        trace = [Probe ''10.1.1.5'' [22], Probe ''10.2.1.5'' [22],
                 Print (ErrorCheckingHost ''10.{team}.1.5''), StopWait 1000],
        pc = ForLoop [1, 2, 3]\<rparr>"
proof -
  have fh: "format_host (host_template scenario_config) (placeholder scenario_config) 2
              = Inr ''10.2.1.5''"
    by code_simp
  show ?thesis
    using probe_exception_restarts_cycle [of
        "\<lparr>down_hosts = {}, stop_event = False, trace = [Probe ''10.1.1.5'' [22]], pc = ForLoop [2, 3]\<rparr>"
        2 "[3]" scenario_config "''10.2.1.5''" probe_raises TypeError all_up all_up, OF _ _ fh]
    by (simp add: probe_raises_def all_up_def scenario_config_def is_Exception_def)
qed

text \<open>
  A run over teams 1 to 3: team 1 is probed and found up, the probe of team 2 raises,
  the wait of one second passes, and the next cycle begins. The host of team 2 is not
  in the down-host set, and the next probe is that of team 1 again, not of team 2.
\<close>

theorem probe_exception_counterexample:
  "worker_run scenario_config [all_up, all_up, probe_raises, all_up, all_up, all_up]
      (worker_start {})
     = \<lparr>down_hosts = {}, stop_event = False,
        trace = [Probe ''10.1.1.5'' [22], Probe ''10.2.1.5'' [22],
                 Print (ErrorCheckingHost ''10.{team}.1.5''), StopWait 1000,
                 Probe ''10.1.1.5'' [22]],
        pc = ForLoop [2, 3]\<rparr>"
  by code_simp

text \<open>
  Scenarios A and B of the specification: with teams 1 and 3 reachable and team 2 not,
  one cycle leaves exactly team 2 in the down-host set; when team 2 answers in the next
  cycle the set is empty again and RECOVERED has been printed.
\<close>

lemma scenario_A:
  "worker_run scenario_config [all_up, all_up, all_down, all_up] (worker_start {})
     = \<lparr>down_hosts = {(2, ''10.2.1.5'')}, stop_event = False,
        trace = [Probe ''10.1.1.5'' [22], Probe ''10.2.1.5'' [22],
                 Print (PossibleBoxReset 2 ''10.2.1.5''), Probe ''10.3.1.5'' [22]],
        pc = ForLoop []\<rparr>"
  by code_simp

lemma scenario_B:
  "worker_run scenario_config [all_up, all_up, all_up, all_up, all_up]
      \<lparr>down_hosts = {(2, ''10.2.1.5'')}, stop_event = False, trace = [], pc = ForLoop []\<rparr>
     = \<lparr>down_hosts = {}, stop_event = False,
        trace = [StopWait 100, Probe ''10.1.1.5'' [22], Probe ''10.2.1.5'' [22],
                 Print (Recovered 2 ''10.2.1.5''), Probe ''10.3.1.5'' [22]],
        pc = ForLoop []\<rparr>"
  by code_simp

section \<open>Properties of the supervisor and of the thread pool\<close>










section \<open>Properties of the status blocks and of the lock\<close>

lemma micro_remaining:
  "st \<noteq> Unlock \<Longrightarrow> micro b st v = (st', v') \<Longrightarrow> remaining b st' v' = remaining b st v"
  by (cases "(b, st, v)" rule: micro.cases)
    (auto simp: report_def status_report_def hosts_down_status_def final_status_def
       down_list_def closing_def split: if_splits)

lemma remaining_Test: "remaining b Test v = atomic b v"
  by (cases b) simp_all

lemma remaining_Unlock: "remaining b Unlock v = v"
  by (cases b) simp_all

lemma remaining_set:
  "\<forall>team h open_port. b \<noteq> UpdateSet team h open_port \<Longrightarrow> fst (remaining b st (reg, out)) = reg"
  by (cases "(b, st, (reg, out))" rule: remaining.cases) simp_all

lemma sched_step_inv:
  assumes "lock_inv s"
  shows "lock_inv (sched_step i s)
       \<and> (entered (sched_step i s) = entered s \<and> view (sched_step i s) = view s
          \<or> (\<exists>b. entered (sched_step i s) = entered s @ [b]
                 \<and> view (sched_step i s) = atomic b (view s)))"
proof (cases "i < length (threads s)")
  case False
  with assms show ?thesis by (simp add: sched_step_def)
next
  case i: True
  show ?thesis
  proof (cases "threads s ! i")
    case (Outside todo)
    show ?thesis
    proof (cases todo)
      case Nil
      with assms i Outside show ?thesis by (simp add: sched_step_def)
    next
      case (Cons b rest)
      show ?thesis
      proof (cases "held_by s")
        case (Some k)
        with assms i Outside Cons show ?thesis by (simp add: sched_step_def)
      next
        case None
        have s': "sched_step i s = s\<lparr>held_by := Some i, threads := (threads s)[i := Inside b Test rest],
                    entered := entered s @ [b]\<rparr>"
          using i Outside Cons None by (simp add: sched_step_def)
        have inv: "lock_inv (sched_step i s)"
          unfolding s' using assms i None
          by (auto simp: lock_inv_def nth_list_update)
        have v: "view s = (the_set s, printed s)" using None by (simp add: view_def)
        have v': "view (sched_step i s) = atomic b (the_set s, printed s)"
          unfolding s' using i by (simp add: view_def remaining_Test)
        show ?thesis using inv v v' s' by simp
      qed
    qed
  next
    case (Inside b st rest)
    with assms i have held: "held_by s = Some i"
      by (auto simp: lock_inv_def)
    have others: "\<And>j. j < length (threads s) \<Longrightarrow> j \<noteq> i \<Longrightarrow>
        \<not> (\<exists>b st rest. threads s ! j = Inside b st rest)"
      using assms held by (auto simp: lock_inv_def)
    have v: "view s = remaining b st (the_set s, printed s)"
      using held Inside by (simp add: view_def)
    show ?thesis
    proof (cases "st = Unlock")
      case True
      have s': "sched_step i s = s\<lparr>held_by := None, threads := (threads s)[i := Outside rest]\<rparr>"
        using i Inside True by (simp add: sched_step_def)
      have inv: "lock_inv (sched_step i s)"
        unfolding s' using others i
        by (auto simp: lock_inv_def nth_list_update)
      have "view (sched_step i s) = (the_set s, printed s)"
        unfolding s' by (simp add: view_def)
      with v True inv s' show ?thesis by (simp add: remaining_Unlock)
    next
      case False
      obtain st' reg' out' where m: "micro b st (the_set s, printed s) = (st', reg', out')"
        by (cases "micro b st (the_set s, printed s)") auto
      have s': "sched_step i s = s\<lparr>the_set := reg', printed := out',
                      threads := (threads s)[i := Inside b st' rest]\<rparr>"
        using i Inside False m by (simp add: sched_step_def)
      have inv: "lock_inv (sched_step i s)"
        unfolding s' using others i held
        by (auto simp: lock_inv_def nth_list_update)
      have "view (sched_step i s) = remaining b st' (reg', out')"
        unfolding s' using held i by (simp add: view_def)
      also have "\<dots> = remaining b st (the_set s, printed s)"
        using micro_remaining [OF False m] .
      finally show ?thesis using v inv s' by simp
    qed
  qed
qed

lemma interleave_inv:
  "lock_inv s \<Longrightarrow> view s = fold atomic (entered s) v0 \<Longrightarrow>
   lock_inv (interleave schedule s)
   \<and> view (interleave schedule s) = fold atomic (entered (interleave schedule s)) v0"
proof (induction schedule arbitrary: s)
  case Nil
  then show ?case by (simp add: interleave_def)
next
  case (Cons i schedule)
  have step: "interleave (i # schedule) s = interleave schedule (sched_step i s)"
    by (simp add: interleave_def)
  from sched_step_inv [OF Cons.prems(1), of i] Cons.prems(2)
  have "lock_inv (sched_step i s)"
    and "view (sched_step i s) = fold atomic (entered (sched_step i s)) v0"
    by auto
  from Cons.IH [OF this] show ?case unfolding step .
qed

lemma lock_start_inv:
  "lock_inv (lock_start programs reg out)
   \<and> view (lock_start programs reg out) = fold atomic (entered (lock_start programs reg out)) (reg, out)"
  by (simp add: lock_inv_def lock_start_def view_def)

lemma listed_down_list: "listed (down_list reg) = sorted_list_of_set reg"
proof -
  have "listed (map (\<lambda>(team, h). TeamHost team h) xs) = xs" for xs
    by (induction xs) auto
  then show ?thesis by (simp add: down_list_def)
qed

lemma listed_append: "listed (xs @ ys) = listed xs @ listed ys"
  by (induction xs rule: listed.induct) simp_all

lemma listed_blocks:
  "listed (status_report reg) = sorted_list_of_set reg"
  "listed (hosts_down_status reg) = sorted_list_of_set reg"
  "listed (final_status reg) = sorted_list_of_set reg"
  by (simp_all add: status_report_def hosts_down_status_def final_status_def listed_append
      listed_down_list)

text \<open>
  C7. For a finite down-host set, the pairs listed by the reporter's digest, by the
  status block of the polling loop and by the final status are the pairs of the set, each
  once, in ascending order of team and then host. Under every schedule of any threads
  that run these blocks and the workers' updates statement by statement: at most one
  thread is inside a block; whenever no thread is inside a block, the set and the
  output are those of running the entered blocks one after the other, whole, in the
  order of entry; and whenever a thread is inside a status block, the set it reads is the
  set left by whole blocks, never one in the middle of an update.
\<close>

theorem snapshots_sorted_and_whole:
  "(finite reg \<longrightarrow>
      sorted_wrt (<) (listed (status_report reg)) \<and> set (listed (status_report reg)) = reg
    \<and> sorted_wrt (<) (listed (hosts_down_status reg)) \<and> set (listed (hosts_down_status reg)) = reg
    \<and> sorted_wrt (<) (listed (final_status reg)) \<and> set (listed (final_status reg)) = reg)
   \<and> (\<forall>i j b st rest b' st' rest'.
        i < length (threads (interleave schedule (lock_start programs reg0 out0)))
        \<and> j < length (threads (interleave schedule (lock_start programs reg0 out0)))
        \<and> threads (interleave schedule (lock_start programs reg0 out0)) ! i = Inside b st rest
        \<and> threads (interleave schedule (lock_start programs reg0 out0)) ! j = Inside b' st' rest'
        \<longrightarrow> i = j)
   \<and> (held_by (interleave schedule (lock_start programs reg0 out0)) = None \<longrightarrow>
        (the_set (interleave schedule (lock_start programs reg0 out0)),
         printed (interleave schedule (lock_start programs reg0 out0)))
        = fold atomic (entered (interleave schedule (lock_start programs reg0 out0))) (reg0, out0))
   \<and> (\<forall>i b st rest.
        i < length (threads (interleave schedule (lock_start programs reg0 out0)))
        \<and> threads (interleave schedule (lock_start programs reg0 out0)) ! i = Inside b st rest
        \<and> b \<in> {ReporterBlock, SupervisorBlock, ShutdownBlock}
        \<longrightarrow> the_set (interleave schedule (lock_start programs reg0 out0))
            = fst (fold atomic (entered (interleave schedule (lock_start programs reg0 out0)))
                     (reg0, out0)))"
proof -
  let ?s = "interleave schedule (lock_start programs reg0 out0)"
  have inv: "lock_inv ?s" and v: "view ?s = fold atomic (entered ?s) (reg0, out0)"
    using interleave_inv [of "lock_start programs reg0 out0" "(reg0, out0)" schedule]
      lock_start_inv [of programs reg0 out0]
    by auto
  have 1: "finite reg \<longrightarrow>
      sorted_wrt (<) (listed (status_report reg)) \<and> set (listed (status_report reg)) = reg
    \<and> sorted_wrt (<) (listed (hosts_down_status reg)) \<and> set (listed (hosts_down_status reg)) = reg
    \<and> sorted_wrt (<) (listed (final_status reg)) \<and> set (listed (final_status reg)) = reg"
    by (simp add: listed_blocks)
  have 2: "\<forall>i j b st rest b' st' rest'.
        i < length (threads ?s) \<and> j < length (threads ?s)
        \<and> threads ?s ! i = Inside b st rest \<and> threads ?s ! j = Inside b' st' rest'
        \<longrightarrow> i = j"
    using inv unfolding lock_inv_def by (metis option.inject)
  have 3: "held_by ?s = None \<longrightarrow> (the_set ?s, printed ?s) = fold atomic (entered ?s) (reg0, out0)"
    using v by (auto simp: view_def)
  have 4: "\<forall>i b st rest.
        i < length (threads ?s) \<and> threads ?s ! i = Inside b st rest
        \<and> b \<in> {ReporterBlock, SupervisorBlock, ShutdownBlock}
        \<longrightarrow> the_set ?s = fst (fold atomic (entered ?s) (reg0, out0))"
  proof (intro allI impI)
    fix i b st rest
    assume a: "i < length (threads ?s) \<and> threads ?s ! i = Inside b st rest
        \<and> b \<in> {ReporterBlock, SupervisorBlock, ShutdownBlock}"
    with inv have "held_by ?s = Some i" by (auto simp: lock_inv_def)
    with a have "view ?s = remaining b st (the_set ?s, printed ?s)"
      by (simp add: view_def)
    moreover have "fst (remaining b st (the_set ?s, printed ?s)) = the_set ?s"
      using a by (intro remaining_set) auto
    ultimately show "the_set ?s = fst (fold atomic (entered ?s) (reg0, out0))"
      using v by simp
  qed
  show ?thesis using 1 2 3 4 by blast
qed

lemma example_interleaving:
  "interleave example_schedule (lock_start example_programs {} [])
     = \<lparr>the_set = {(1, ''10.1.1.5''), (2, ''10.2.1.5'')},
        printed = [PossibleBoxReset 2 ''10.2.1.5'', StatusReportDown 1, TeamHost 2 ''10.2.1.5'',
                   Rule, PossibleBoxReset 1 ''10.1.1.5''],
        held_by = None,
        threads = [Outside [], Outside []],
        entered = [UpdateSet 2 ''10.2.1.5'' False, ReporterBlock, UpdateSet 1 ''10.1.1.5'' False]\<rparr>"
  by code_simp

lemma example_midway:
  "interleave (take 12 example_schedule) (lock_start example_programs {} [])
     = \<lparr>the_set = {(2, ''10.2.1.5'')},
        printed = [PossibleBoxReset 2 ''10.2.1.5'', StatusReportDown 1],
        held_by = Some 1,
        threads = [Outside [UpdateSet 1 ''10.1.1.5'' False], Inside ReporterBlock (Listing [(2, ''10.2.1.5'')]) []],
        entered = [UpdateSet 2 ''10.2.1.5'' False, ReporterBlock]\<rparr>"
  by code_simp

lemma example_sorted:
  "listed (status_report {(2, ''10.2.1.5''), (1, ''10.1.1.9''), (1, ''10.1.1.10'')})
     = [(1, ''10.1.1.10''), (1, ''10.1.1.9''), (2, ''10.2.1.5'')]"
  by code_simp

theorem snapshots_sorted_and_whole_witness:
  "finite {(2 :: int, ''10.2.1.5''), (1, ''10.1.1.9''), (1, ''10.1.1.10'')}
   \<and> sorted_wrt (<) (listed (status_report {(2, ''10.2.1.5''), (1, ''10.1.1.9''), (1, ''10.1.1.10'')}))
   \<and> listed (status_report {(2, ''10.2.1.5''), (1, ''10.1.1.9''), (1, ''10.1.1.10'')})
       = [(1, ''10.1.1.10''), (1, ''10.1.1.9''), (2, ''10.2.1.5'')]
   \<and> held_by (interleave example_schedule (lock_start example_programs {} [])) = None
   \<and> fold atomic (entered (interleave example_schedule (lock_start example_programs {} []))) ({}, [])
       = ({(1, ''10.1.1.5''), (2, ''10.2.1.5'')},
          [PossibleBoxReset 2 ''10.2.1.5'', StatusReportDown 1, TeamHost 2 ''10.2.1.5'',
           Rule, PossibleBoxReset 1 ''10.1.1.5''])
   \<and> threads (interleave (take 12 example_schedule) (lock_start example_programs {} [])) ! 1
       = Inside ReporterBlock (Listing [(2, ''10.2.1.5'')]) []
   \<and> fst (fold atomic (entered (interleave (take 12 example_schedule)
         (lock_start example_programs {} []))) ({}, [])) = {(2, ''10.2.1.5'')}"
  using snapshots_sorted_and_whole [of "{(2, ''10.2.1.5''), (1, ''10.1.1.9''), (1, ''10.1.1.10'')}"
      example_schedule example_programs "{}" "[]"]
    snapshots_sorted_and_whole [of "{}" "take 12 example_schedule" example_programs "{}" "[]"]
  by (simp add: example_interleaving example_midway example_sorted report_def)

end
